theory Spec2Isabelle
  imports Main
begin

section \<open>Strings of the JavaScript runtime\<close>

text \<open>
  Strings are lists of characters, one character for each code unit of an ASCII
  string.  The functions of this section stand for the
  runtime operations that \<^verbatim>\<open>src/index.ts\<close> calls on strings and numbers: the
  decimal rendering of a non-negative integer, \<^verbatim>\<open>padStart\<close>, \<^verbatim>\<open>substring\<close>,
  template interpolation of an optional value, truthiness, and the POSIX variants
  of \<^verbatim>\<open>path.extname\<close>, \<^verbatim>\<open>path.basename\<close> and \<^verbatim>\<open>path.join\<close>.
\<close>

definition nl :: string where
  "nl = [CHR 0x0A]"

definition digit_char :: "nat \<Rightarrow> char" where
  "digit_char d = ''0123456789'' ! d"

fun toString :: "nat \<Rightarrow> string" where
  "toString n = (if n < 10 then [digit_char n] else toString (n div 10) @ [digit_char (n mod 10)])"

declare toString.simps [simp del]

definition padStart :: "nat \<Rightarrow> char \<Rightarrow> string \<Rightarrow> string" where
  "padStart n c s = replicate (n - length s) c @ s"

definition substring :: "nat \<Rightarrow> nat \<Rightarrow> string \<Rightarrow> string" where
  "substring i j s = take (j - i) (drop i s)"

text \<open>A string is truthy when it is present and not empty.\<close>

fun truthy :: "string option \<Rightarrow> bool" where
  "truthy None = False"
| "truthy (Some s) = (s \<noteq> [])"

text \<open>\<^verbatim>\<open>v ? f(v) : d\<close> and \<^verbatim>\<open>v || d\<close> for an optional string \<open>v\<close>.\<close>

fun when_truthy :: "string option \<Rightarrow> (string \<Rightarrow> 'a) \<Rightarrow> 'a \<Rightarrow> 'a" where
  "when_truthy None f d = d"
| "when_truthy (Some s) f d = (if s \<noteq> [] then f s else d)"

definition or_else :: "string option \<Rightarrow> string \<Rightarrow> string" where
  "or_else v d = when_truthy v (\<lambda>s. s) d"

text \<open>Interpolating an absent value into a template literal prints \<^verbatim>\<open>undefined\<close>.\<close>

fun interpolate :: "string option \<Rightarrow> string" where
  "interpolate None = ''undefined''"
| "interpolate (Some s) = s"

definition is_digit :: "char \<Rightarrow> bool" where
  "is_digit c = (c \<in> set ''0123456789'')"

definition is_lower :: "char \<Rightarrow> bool" where
  "is_lower c = (c \<in> set ''abcdefghijklmnopqrstuvwxyz'')"

definition is_upper :: "char \<Rightarrow> bool" where
  "is_upper c = (c \<in> set ''ABCDEFGHIJKLMNOPQRSTUVWXYZ'')"

text \<open>The class \<^verbatim>\<open>[a-z0-9]\<close> under the flag \<^verbatim>\<open>i\<close>, and without it.\<close>

definition is_alnum :: "char \<Rightarrow> bool" where
  "is_alnum c = (is_lower c \<or> is_upper c \<or> is_digit c)"

definition is_lower_alnum :: "char \<Rightarrow> bool" where
  "is_lower_alnum c = (is_lower c \<or> is_digit c)"

text \<open>\<^verbatim>\<open>s.replace(/[^a-z0-9]/gi, '_')\<close>\<close>

definition sanitize :: "string \<Rightarrow> string" where
  "sanitize s = map (\<lambda>c. if is_alnum c then c else CHR ''_'') s"

subsection \<open>Paths\<close>

definition is_slash :: "char \<Rightarrow> bool" where
  "is_slash c = (c = CHR ''/'')"

text \<open>The last component of a path, trailing separators ignored.\<close>

definition last_component :: "string \<Rightarrow> string" where
  "last_component p = rev (takeWhile (\<lambda>c. \<not> is_slash c) (dropWhile is_slash (rev p)))"

definition trailing_slashes :: "string \<Rightarrow> string" where
  "trailing_slashes p = takeWhile is_slash (rev p)"

text \<open>
  \<^verbatim>\<open>path.extname\<close>: from the last dot of the last component to its end; empty when
  the component has no dot, when its only dot is its first character, and for
  the component \<^verbatim>\<open>..\<close>.
\<close>

definition extname :: "string \<Rightarrow> string" where
  "extname p =
     (let comp = last_component p;
          ext = rev (takeWhile (\<lambda>c. c \<noteq> CHR ''.'') (rev comp));
          stem = take (length comp - length ext - 1) comp
      in if CHR ''.'' \<notin> set comp then []
         else if stem = [] then []
         else if comp = ''..'' then []
         else CHR ''.'' # ext)"

text \<open>
  \<^verbatim>\<open>path.basename(p)\<close> and \<^verbatim>\<open>path.basename(p, suffix)\<close>.  With a non-empty
  suffix no longer than the path, the suffix is cut from the last component
  unless it is the whole component; a component that is itself a proper end of
  the suffix is returned together with the separators that follow it.
\<close>

definition basename :: "string \<Rightarrow> string \<Rightarrow> string" where
  "basename p suffix =
     (let comp = last_component p in
      if suffix \<noteq> [] \<and> length suffix \<le> length p then
        if suffix = p then []
        else if length suffix \<le> length comp then
          if drop (length comp - length suffix) comp = suffix \<and> length suffix < length comp
          then take (length comp - length suffix) comp
          else comp
        else if drop (length suffix - length comp) suffix = comp
          then comp @ trailing_slashes p
          else comp
      else comp)"

text \<open>
  \<^verbatim>\<open>path.join(dir, name)\<close> for a normalised directory and a file name without
  separators.
\<close>

definition path_join :: "string \<Rightarrow> string \<Rightarrow> string" where
  "path_join dir n = dir @ ''/'' @ n"

section \<open>Data model\<close>

record forward_user =
  username :: "string option"
  first_name :: "string option"

record forward_chat =
  title :: "string option"

record named_file =
  file_id :: string
  file_name :: "string option"

text \<open>
  \<^verbatim>\<open>IncomingMessage = ForwardMeta & MediaMeta\<close>, with the field \<^verbatim>\<open>date\<close> that
  \<^verbatim>\<open>processMessage\<close> reads from the message.  A photo is the list of the file
  identifiers of its variants; video, voice and video note are one file
  identifier each.
\<close>

record IncomingMessage =
  forward_from :: "forward_user option"
  forward_from_chat :: "forward_chat option"
  forward_sender_name :: "string option"
  msg_text :: "string option"
  caption :: "string option"
  photo :: "string list option"
  document :: "named_file option"
  video :: "string option"
  audio :: "named_file option"
  voice :: "string option"
  video_note :: "string option"
  date :: "nat option"

record AttachmentEntry =
  name :: string
  type :: string
  originalName :: "string option"

text \<open>The local-time fields that the code reads from a \<^verbatim>\<open>Date\<close>.\<close>

record local_date =
  getHours :: nat
  getMinutes :: nat
  getSeconds :: nat
  getDate :: nat
  getMonth :: nat
  getFullYear :: nat

definition valid_date :: "local_date \<Rightarrow> bool" where
  "valid_date d = (getHours d < 24 \<and> getMinutes d < 60 \<and> getSeconds d < 60 \<and>
     1 \<le> getDate d \<and> getDate d \<le> 31 \<and> getMonth d < 12)"

text \<open>The process configuration and the directories derived at start-up.\<close>

record config =
  ALLOWED_USER_ID :: string
  NOTES_DIR :: string

section \<open>Timestamp and file-name utilities\<close>

definition MONTH_NAMES :: "string list" where
  "MONTH_NAMES = [''jan'', ''feb'', ''mar'', ''apr'', ''may'', ''jun'',
                  ''jul'', ''aug'', ''sep'', ''oct'', ''nov'', ''dec'']"

text \<open>
  \<^verbatim>\<open>getTimestamp\<close>.  The time zone \<open>tz\<close> maps milliseconds since the epoch to local
  fields and \<open>now\<close> is the clock; a timestamp that is absent or zero is falsy and
  selects the clock.
\<close>

definition getTimestamp :: "(nat \<Rightarrow> local_date) \<Rightarrow> nat \<Rightarrow> nat option \<Rightarrow> string" where
  "getTimestamp tz now unixTimestamp =
     (let d = (case unixTimestamp of
                 None \<Rightarrow> tz now
               | Some u \<Rightarrow> if u \<noteq> 0 then tz (u * 1000) else tz now);
          hours = padStart 2 CHR ''0'' (toString (getHours d));
          minutes = padStart 2 CHR ''0'' (toString (getMinutes d));
          seconds = padStart 2 CHR ''0'' (toString (getSeconds d))
      in hours @ '':'' @ minutes @ '':'' @ seconds)"

text \<open>
  \<^verbatim>\<open>getDayNotesFile\<close>, as a function of the local date that \<^verbatim>\<open>new Date()\<close>
  returns.  An index outside \<^verbatim>\<open>MONTH_NAMES\<close> reads \<^verbatim>\<open>undefined\<close>.
\<close>

definition month_name :: "nat \<Rightarrow> string option" where
  "month_name i = (if i < length MONTH_NAMES then Some (MONTH_NAMES ! i) else None)"

definition getDayNotesFile :: "config \<Rightarrow> local_date \<Rightarrow> string" where
  "getDayNotesFile cfg now =
     (let day = getDate now;
          month = month_name (getMonth now);
          baseName = toString day @ ''-'' @ interpolate month
      in path_join (NOTES_DIR cfg) (baseName @ ''.md''))"

text \<open>
  \<^verbatim>\<open>generateFileName\<close>.  \<open>timestamp\<close> is \<^verbatim>\<open>Date.now()\<close> and \<open>random36\<close> is
  \<^verbatim>\<open>Math.random().toString(36)\<close>.
\<close>

definition generateFileName :: "nat \<Rightarrow> string \<Rightarrow> string \<Rightarrow> string \<Rightarrow> string" where
  "generateFileName timestamp random36 baseName extension =
     (let random = substring 2 8 random36;
          sanitized = (if baseName \<noteq> [] then sanitize baseName else ''file'')
      in toString timestamp @ ''_'' @ random @ ''_'' @ sanitized @ extension)"

text \<open>\<^verbatim>\<open>formatForwardInfo\<close>\<close>

definition formatForwardInfo :: "'a IncomingMessage_scheme \<Rightarrow> string" where
  "formatForwardInfo message =
     (case forward_from message of
        Some u \<Rightarrow>
          (let forwardedFrom = when_truthy (username u) (\<lambda>n. ''@'' @ n) (interpolate (first_name u))
           in '' - Forwarded from '' @ forwardedFrom)
      | None \<Rightarrow>
          (case forward_from_chat message of
             Some c \<Rightarrow> '' - Forwarded from '' @ interpolate (title c)
           | None \<Rightarrow>
               when_truthy (forward_sender_name message) (\<lambda>n. '' - Forwarded from '' @ n) []))"

section \<open>Effects and the environment\<close>

datatype log_line =
    RejectedNoSender
  | RejectedUnauthorized string
  | NoPayload
  | Processing
  | TextPreview string
  | CaptionPreview string
  | Saved string
  | DownloadFailed string
  | NotesWriteError
  | SavedTo string

text \<open>
  The calls that reach the outside world.  A file of the attachments directory
  is named by its file name, a download by the file identifier it asks for.
  \<open>AppendFileSync path data written\<close> records whether the append took place.
\<close>

datatype action =
    Log log_line
  | GetFileLink string
  | CreateWriteStream string
  | HttpsGet string
  | Unlink string
  | AppendFileSync string string bool
  | Reply string

fun is_log :: "action \<Rightarrow> bool" where
  "is_log (Log l) = True"
| "is_log a = False"

datatype kind = Photo | Document | Video | Audio | Voice | VideoNote

text \<open>
  How one download goes: \<^verbatim>\<open>getFileLink\<close> rejects; the request emits
  \<^verbatim>\<open>error\<close>; the write stream emits \<^verbatim>\<open>finish\<close>; or the write stream or the
  response fails, for which \<^verbatim>\<open>downloadFile\<close> registers no listener.
\<close>

datatype transfer = LinkRejected | RequestError | Finished | StreamError

text \<open>
  The answers of the environment to the calls made while one message is
  processed: the time zone, the clock at each read, the base-36 rendering of
  each random number, the course of each download, and whether the append and
  the reply throw.
\<close>

record world =
  tz :: "nat \<Rightarrow> local_date"
  stamp_clock :: nat
  name_clock :: "kind \<Rightarrow> nat"
  random36 :: "kind \<Rightarrow> string"
  transfer_of :: "kind \<Rightarrow> transfer"
  append_clock :: nat
  log_clock :: nat
  append_throws :: bool
  reply_throws :: bool

text \<open>
  A context: \<open>from_id\<close> is the value of \<^verbatim>\<open>ctx.from?.id?.toString()\<close>, \<open>message\<close>
  is \<^verbatim>\<open>ctx.message\<close>.
\<close>

record MessageContext =
  from_id :: "string option"
  message :: "IncomingMessage option"
  world :: world

section \<open>Attachment fetcher\<close>

datatype download = Resolved "string option" | Unsettled

text \<open>
  \<^verbatim>\<open>downloadFile\<close>: the calls it makes and the value its promise resolves to.
  Neither \<^verbatim>\<open>resolve\<close> nor \<^verbatim>\<open>reject\<close> runs on a stream error, so the promise
  stays unsettled.
\<close>

fun downloadFile :: "transfer \<Rightarrow> string \<Rightarrow> string \<Rightarrow> action list \<times> download" where
  "downloadFile LinkRejected fileId fileName =
     ([GetFileLink fileId, Log (DownloadFailed fileName)], Resolved None)"
| "downloadFile RequestError fileId fileName =
     ([GetFileLink fileId, CreateWriteStream fileName, HttpsGet fileId,
       Unlink fileName, Log (DownloadFailed fileName)], Resolved None)"
| "downloadFile Finished fileId fileName =
     ([GetFileLink fileId, CreateWriteStream fileName, HttpsGet fileId,
       Log (Saved fileName)], Resolved (Some fileName))"
| "downloadFile StreamError fileId fileName =
     ([GetFileLink fileId, CreateWriteStream fileName, HttpsGet fileId], Unsettled)"

section \<open>Record formatter and archive writer\<close>

text \<open>One line of the attachments section.\<close>

definition displayName :: "AttachmentEntry \<Rightarrow> string" where
  "displayName att = or_else (originalName att) (name att)"

definition render_attachment :: "AttachmentEntry \<Rightarrow> string" where
  "render_attachment att =
     (let isImage = (type att \<in> set [''Photo'', ''Video'', ''Video Note''])
      in if isImage
         then ''!['' @ displayName att @ ''](../attachments/'' @ name att @ '')'' @ nl
         else ''- ['' @ displayName att @ ''](../attachments/'' @ name att @ '') _(''
              @ type att @ '')_'' @ nl)"

definition attachments_section :: "AttachmentEntry list \<Rightarrow> string" where
  "attachments_section atts =
     (if atts \<noteq> [] then nl @ ''**Attachments:**'' @ nl @ concat (map render_attachment atts)
      else [])"

definition body_text :: "'a IncomingMessage_scheme \<Rightarrow> string" where
  "body_text m =
     when_truthy (msg_text m) (\<lambda>t. t @ nl) (when_truthy (caption m) (\<lambda>c. c @ nl) [])"

text \<open>The string that \<^verbatim>\<open>processMessage\<close> builds in \<^verbatim>\<open>markdownContent\<close>.\<close>

definition markdownContent :: "'a IncomingMessage_scheme \<Rightarrow> string \<Rightarrow> AttachmentEntry list \<Rightarrow> string" where
  "markdownContent m timestamp atts =
     nl @ ''---'' @ nl @ ''**'' @ timestamp @ ''**'' @ formatForwardInfo m @ nl @ nl
     @ body_text m @ attachments_section atts @ nl @ ''---'' @ nl"

text \<open>\<^verbatim>\<open>appendToNotes\<close>: the day file is that of the clock at the time of the append.\<close>

definition appendToNotes :: "config \<Rightarrow> world \<Rightarrow> string \<Rightarrow> action list" where
  "appendToNotes cfg w content =
     (let notesFile = getDayNotesFile cfg (tz w (append_clock w))
      in if append_throws w
         then [AppendFileSync notesFile (content @ nl) False, Log NotesWriteError]
         else [AppendFileSync notesFile (content @ nl) True])"

section \<open>Processing one message\<close>

text \<open>
  The state of \<^verbatim>\<open>processMessage\<close> between its attachment branches: the calls made
  so far, the entries pushed so far, and whether an awaited download has been
  left unsettled.
\<close>

record progress =
  acts :: "action list"
  attachments :: "AttachmentEntry list"
  suspended :: bool

text \<open>\<^verbatim>\<open>const saved = await downloadFile(..); if (saved) attachments.push(..)\<close>\<close>

definition fetch :: "world \<Rightarrow> kind \<Rightarrow> string \<Rightarrow> string \<Rightarrow> string \<Rightarrow> string option \<Rightarrow> progress \<Rightarrow> progress" where
  "fetch w k fileId fileName label orig p =
     (if suspended p then p
      else case downloadFile (transfer_of w k) fileId fileName of
             (as, Unsettled) \<Rightarrow> p\<lparr>acts := acts p @ as, suspended := True\<rparr>
           | (as, Resolved saved) \<Rightarrow>
               p\<lparr>acts := acts p @ as,
                 attachments := when_truthy saved
                   (\<lambda>s. attachments p @ [\<lparr>name = s, type = label, originalName = orig\<rparr>])
                   (attachments p)\<rparr>)"

definition fileName_for :: "world \<Rightarrow> kind \<Rightarrow> string \<Rightarrow> string \<Rightarrow> string" where
  "fileName_for w k baseName extension =
     generateFileName (name_clock w k) (random36 w k) baseName extension"

definition photo_branch :: "world \<Rightarrow> 'a IncomingMessage_scheme \<Rightarrow> progress \<Rightarrow> progress" where
  "photo_branch w m p =
     (case photo m of
        None \<Rightarrow> p
      | Some sizes \<Rightarrow>
          if sizes \<noteq> []
          then fetch w Photo (last sizes) (fileName_for w Photo ''photo'' ''.jpg'') ''Photo'' None p
          else p)"

definition document_branch :: "world \<Rightarrow> 'a IncomingMessage_scheme \<Rightarrow> progress \<Rightarrow> progress" where
  "document_branch w m p =
     (case document m of
        None \<Rightarrow> p
      | Some d \<Rightarrow>
          (let extension = when_truthy (file_name d) extname [];
               baseName = when_truthy (file_name d) (\<lambda>n. basename n extension) ''document'';
               fileName = fileName_for w Document baseName
                            (if extension \<noteq> [] then extension else ''.bin'')
           in fetch w Document (file_id d) fileName ''Document''
                (Some (or_else (file_name d) baseName)) p))"

definition video_branch :: "world \<Rightarrow> 'a IncomingMessage_scheme \<Rightarrow> progress \<Rightarrow> progress" where
  "video_branch w m p =
     (case video m of
        None \<Rightarrow> p
      | Some v \<Rightarrow> fetch w Video v (fileName_for w Video ''video'' ''.mp4'') ''Video'' None p)"

definition audio_branch :: "world \<Rightarrow> 'a IncomingMessage_scheme \<Rightarrow> progress \<Rightarrow> progress" where
  "audio_branch w m p =
     (case audio m of
        None \<Rightarrow> p
      | Some a \<Rightarrow>
          (let extension = when_truthy (file_name a) extname ''.mp3'';
               baseName = when_truthy (file_name a) (\<lambda>n. basename n extension) ''audio'';
               fileName = fileName_for w Audio baseName extension
           in fetch w Audio (file_id a) fileName ''Audio''
                (Some (or_else (file_name a) baseName)) p))"

definition voice_branch :: "world \<Rightarrow> 'a IncomingMessage_scheme \<Rightarrow> progress \<Rightarrow> progress" where
  "voice_branch w m p =
     (case voice m of
        None \<Rightarrow> p
      | Some v \<Rightarrow> fetch w Voice v (fileName_for w Voice ''voice'' ''.ogg'') ''Voice'' None p)"

definition video_note_branch :: "world \<Rightarrow> 'a IncomingMessage_scheme \<Rightarrow> progress \<Rightarrow> progress" where
  "video_note_branch w m p =
     (case video_note m of
        None \<Rightarrow> p
      | Some v \<Rightarrow>
          fetch w VideoNote v (fileName_for w VideoNote ''video_note'' ''.mp4'') ''Video Note'' None p)"

definition preview :: "string \<Rightarrow> string" where
  "preview t = substring 0 50 t @ (if length t > 50 then ''...'' else [])"

definition content_logs :: "'a IncomingMessage_scheme \<Rightarrow> action list" where
  "content_logs m =
     when_truthy (msg_text m) (\<lambda>t. [Log (TextPreview (preview t))])
       (when_truthy (caption m) (\<lambda>c. [Log (CaptionPreview (preview c))]) [])"

definition fetch_attachments :: "world \<Rightarrow> 'a IncomingMessage_scheme \<Rightarrow> progress" where
  "fetch_attachments w m =
     video_note_branch w m (voice_branch w m (audio_branch w m (video_branch w m
       (document_branch w m (photo_branch w m
          \<lparr>acts = Log Processing # content_logs m, attachments = [], suspended = False\<rparr>)))))"

text \<open>The reply text: a check mark (three bytes of UTF-8) and the words.\<close>

definition saved_reply :: string where
  "saved_reply = [CHR 0xE2, CHR 0x9C, CHR 0x85] @ '' Saved to notes!''"

datatype outcome = Returned | Threw | Suspended

text \<open>
  \<^verbatim>\<open>processMessage\<close>: the calls it makes, in order, and how it ends.  It throws when
  the reply throws, and when the context has no message; it stays suspended
  when an awaited download never settles.
\<close>

definition processMessage :: "config \<Rightarrow> MessageContext \<Rightarrow> action list \<times> outcome" where
  "processMessage cfg ctx =
     (case message ctx of
        None \<Rightarrow> ([Log Processing], Threw)
      | Some m \<Rightarrow>
          (let w = world ctx;
               timestamp = getTimestamp (tz w) (stamp_clock w) (date m);
               p = fetch_attachments w m
           in if suspended p then (acts p, Suspended)
              else
                (let content = markdownContent m timestamp (attachments p);
                     notesFile = getDayNotesFile cfg (tz w (log_clock w))
                 in (acts p @ appendToNotes cfg w content
                       @ [Log (SavedTo (basename notesFile [])), Reply saved_reply],
                     if reply_throws w then Threw else Returned))))"

section \<open>Sequential dispatch queue\<close>

text \<open>
  The state of the process: the queue, the flag, the calls of \<^verbatim>\<open>processMessage\<close>
  that have been started and not yet settled, each with the calls it still has
  to make, and the calls made so far.
\<close>

record bot =
  messageQueue :: "MessageContext list"
  isProcessing :: bool
  running :: "(MessageContext \<times> action list) list"
  trace :: "action list"

definition initial :: bot where
  "initial = \<lparr>messageQueue = [], isProcessing = False, running = [], trace = []\<rparr>"

text \<open>
  The test of the \<^verbatim>\<open>while\<close> loop of \<^verbatim>\<open>processQueue\<close>: shift the oldest context
  and start \<^verbatim>\<open>processMessage\<close> on it, or leave the loop and clear the flag.
\<close>

definition loop_turn :: "config \<Rightarrow> bot \<Rightarrow> bot" where
  "loop_turn cfg s =
     (case messageQueue s of
        [] \<Rightarrow> s\<lparr>isProcessing := False\<rparr>
      | ctx # rest \<Rightarrow>
          s\<lparr>messageQueue := rest,
            running := running s @ [(ctx, fst (processMessage cfg ctx))]\<rparr>)"

definition processQueue :: "config \<Rightarrow> bot \<Rightarrow> bot" where
  "processQueue cfg s =
     (if isProcessing s \<or> messageQueue s = [] then s
      else loop_turn cfg (s\<lparr>isProcessing := True\<rparr>))"

text \<open>The handler of \<^verbatim>\<open>bot.on('message')\<close>.\<close>

definition on_message :: "config \<Rightarrow> MessageContext \<Rightarrow> bot \<Rightarrow> bot" where
  "on_message cfg ctx s =
     (let userId = from_id ctx in
      if \<not> truthy userId then s\<lparr>trace := trace s @ [Log RejectedNoSender]\<rparr>
      else if userId \<noteq> Some (ALLOWED_USER_ID cfg)
        then s\<lparr>trace := trace s @ [Log (RejectedUnauthorized (interpolate userId))]\<rparr>
      else if message ctx = None then s\<lparr>trace := trace s @ [Log NoPayload]\<rparr>
      else processQueue cfg (s\<lparr>messageQueue := messageQueue s @ [ctx]\<rparr>))"

text \<open>
  The awaited \<^verbatim>\<open>processMessage\<close> settles.  When it returns, the loop takes its
  next turn; when it throws, \<^verbatim>\<open>processQueue\<close> is left through the exception and
  the flag keeps its value; a suspended call stays where it is.
\<close>

definition settle :: "config \<Rightarrow> nat \<Rightarrow> bot \<Rightarrow> bot" where
  "settle cfg i s =
     (let ctx = fst (running s ! i);
          s' = s\<lparr>running := take i (running s) @ drop (Suc i) (running s)\<rparr>
      in case snd (processMessage cfg ctx) of
           Returned \<Rightarrow> loop_turn cfg s'
         | Threw \<Rightarrow> s'
         | Suspended \<Rightarrow> s)"

text \<open>
  The \<open>i\<close>-th running call makes its next call; after its last call it settles.
  Every call is a point where other events may come in between, which includes
  every \<^verbatim>\<open>await\<close> of the source.
\<close>

definition resume :: "config \<Rightarrow> nat \<Rightarrow> bot \<Rightarrow> bot" where
  "resume cfg i s =
     (if i < length (running s) then
        (case running s ! i of
           (ctx, []) \<Rightarrow> settle cfg i s
         | (ctx, a # rest) \<Rightarrow>
             (let s' = s\<lparr>trace := trace s @ [a], running := (running s)[i := (ctx, rest)]\<rparr>
              in if rest = [] then settle cfg i s' else s'))
      else s)"

datatype event = Message MessageContext | Resume nat

fun step :: "config \<Rightarrow> bot \<Rightarrow> event \<Rightarrow> bot" where
  "step cfg s (Message ctx) = on_message cfg ctx s"
| "step cfg s (Resume i) = resume cfg i s"

definition run :: "config \<Rightarrow> bot \<Rightarrow> event list \<Rightarrow> bot" where
  "run cfg s evs = foldl (step cfg) s evs"

text \<open>The contexts that pass the gate, in order of arrival.\<close>

definition authorized :: "config \<Rightarrow> MessageContext \<Rightarrow> bool" where
  "authorized cfg ctx =
     (truthy (from_id ctx) \<and> from_id ctx = Some (ALLOWED_USER_ID cfg) \<and> message ctx \<noteq> None)"

fun enqueued :: "config \<Rightarrow> event list \<Rightarrow> MessageContext list" where
  "enqueued cfg [] = []"
| "enqueued cfg (Message ctx # evs) =
     (if authorized cfg ctx then ctx # enqueued cfg evs else enqueued cfg evs)"
| "enqueued cfg (Resume i # evs) = enqueued cfg evs"

text \<open>The calls other than console output.\<close>

definition effects :: "action list \<Rightarrow> action list" where
  "effects as = filter (\<lambda>a. \<not> is_log a) as"

definition script :: "config \<Rightarrow> MessageContext \<Rightarrow> action list" where
  "script cfg ctx = fst (processMessage cfg ctx)"

section \<open>Vocabulary of the properties\<close>

text \<open>Two decimal digits, and the shape \<^verbatim>\<open>HH:MM:SS\<close>.\<close>

definition two_digits :: "string \<Rightarrow> bool" where
  "two_digits s = (length s = 2 \<and> list_all is_digit s)"

definition is_HHMMSS :: "string \<Rightarrow> bool" where
  "is_HHMMSS s = (length s = 8 \<and> two_digits (take 2 s) \<and> s ! 2 = CHR '':'' \<and>
     two_digits (take 2 (drop 3 s)) \<and> s ! 5 = CHR '':'' \<and> two_digits (drop 6 s))"

text \<open>A message without media: no attachment branch of \<^verbatim>\<open>processMessage\<close> is taken.\<close>

definition no_photo :: "'a IncomingMessage_scheme \<Rightarrow> bool" where
  "no_photo m = (case photo m of None \<Rightarrow> True | Some sizes \<Rightarrow> sizes = [])"

definition no_media :: "'a IncomingMessage_scheme \<Rightarrow> bool" where
  "no_media m = (no_photo m \<and> document m = None \<and> video m = None \<and> audio m = None \<and>
     voice m = None \<and> video_note m = None)"

definition same_calendar_day :: "local_date \<Rightarrow> local_date \<Rightarrow> bool" where
  "same_calendar_day d e = (getFullYear d = getFullYear e \<and> getMonth d = getMonth e \<and>
     getDate d = getDate e)"

text \<open>The files that a list of calls appends to.\<close>

fun append_target :: "action \<Rightarrow> string option" where
  "append_target (AppendFileSync p d b) = Some p"
| "append_target a = None"

definition append_targets :: "action list \<Rightarrow> string list" where
  "append_targets as = List.map_filter append_target as"

text \<open>The calls that \<^verbatim>\<open>downloadFile\<close> and the console make.\<close>

fun is_download :: "action \<Rightarrow> bool" where
  "is_download (AppendFileSync p d b) = False"
| "is_download (Reply t) = False"
| "is_download a = True"

text \<open>
  The base-36 rendering of a number in the interval from 0 to 1, 1 excluded:
  \<^verbatim>\<open>0\<close>, or \<^verbatim>\<open>0.\<close> and at least one digit of \<^verbatim>\<open>[a-z0-9]\<close>.
\<close>

definition radix36 :: "string \<Rightarrow> bool" where
  "radix36 r = (r = ''0'' \<or>
     (take 2 r = ''0.'' \<and> drop 2 r \<noteq> [] \<and> list_all is_lower_alnum (drop 2 r)))"

text \<open>
  The pattern \<^verbatim>\<open>^\d+_[a-z0-9]{lo,hi}_plan_v2\.docx$\<close>.  Neither class contains
  the underscore, so the digits and the token are the longest runs of their
  classes.
\<close>

definition stored_name_pattern :: "nat \<Rightarrow> nat \<Rightarrow> string \<Rightarrow> bool" where
  "stored_name_pattern lo hi s =
     (let ds = takeWhile is_digit s; r1 = dropWhile is_digit s
      in ds \<noteq> [] \<and>
         (case r1 of
            [] \<Rightarrow> False
          | c # r2 \<Rightarrow>
              c = CHR ''_'' \<and>
              (let tok = takeWhile is_lower_alnum r2; r3 = dropWhile is_lower_alnum r2
               in lo \<le> length tok \<and> length tok \<le> hi \<and> r3 = ''_plan_v2.docx'')))"

text \<open>Example inputs.\<close>

definition example_date :: local_date where
  "example_date = \<lparr>getHours = 9, getMinutes = 5, getSeconds = 30, getDate = 3,
     getMonth = 10, getFullYear = 2026\<rparr>"

definition example_world :: world where
  "example_world = \<lparr>tz = (\<lambda>t. example_date), stamp_clock = 1700000000000,
     name_clock = (\<lambda>k. 1700000000123), random36 = (\<lambda>k. ''0.4fzyo82mvyr''),
     transfer_of = (\<lambda>k. Finished), append_clock = 1700000000200,
     log_clock = 1700000000201, append_throws = False, reply_throws = False\<rparr>"

definition example_config :: config where
  "example_config = \<lparr>ALLOWED_USER_ID = ''42'', NOTES_DIR = ''/srv/bot/notes''\<rparr>"

definition empty_message :: IncomingMessage where
  "empty_message = \<lparr>forward_from = None, forward_from_chat = None,
     forward_sender_name = None, msg_text = None, caption = None, photo = None,
     document = None, video = None, audio = None, voice = None, video_note = None,
     date = Some 1700000000\<rparr>"

definition text_message :: IncomingMessage where
  "text_message = empty_message\<lparr>msg_text := Some ''hello''\<rparr>"

definition plan_message :: IncomingMessage where
  "plan_message = empty_message\<lparr>document := Some \<lparr>file_id = ''F1'', file_name = Some ''plan v2.docx''\<rparr>\<rparr>"

definition unnamed_document_message :: IncomingMessage where
  "unnamed_document_message = empty_message\<lparr>document := Some \<lparr>file_id = ''F1'', file_name = None\<rparr>\<rparr>"

definition start_progress :: progress where
  "start_progress = \<lparr>acts = [], attachments = [], suspended = False\<rparr>"

definition forwarded_message :: IncomingMessage where
  "forwarded_message = text_message\<lparr>
     forward_from := Some \<lparr>username = Some ''alice'', first_name = Some ''Alice''\<rparr>,
     forward_from_chat := Some \<lparr>title = Some ''News''\<rparr>,
     forward_sender_name := Some ''Bob''\<rparr>"

text \<open>A world in which every random number is one half, rendered \<^verbatim>\<open>0.i\<close> in base 36.\<close>

definition half_world :: world where
  "half_world = example_world\<lparr>random36 := (\<lambda>k. ''0.i'')\<rparr>"

text \<open>
  The display name that \<^verbatim>\<open>processMessage\<close> gives an entry of message \<open>m\<close>: for a
  document or an audio file the declared name when it is truthy, else the word
  \<^verbatim>\<open>document\<close> or \<^verbatim>\<open>audio\<close>; for the other kinds the stored name.
\<close>

definition display_rule :: "'a IncomingMessage_scheme \<Rightarrow> AttachmentEntry \<Rightarrow> bool" where
  "display_rule m att =
     (if type att = ''Document''
        then (case document m of
                None \<Rightarrow> False
              | Some d \<Rightarrow> displayName att = or_else (file_name d) ''document'')
      else if type att = ''Audio''
        then (case audio m of
                None \<Rightarrow> False
              | Some a \<Rightarrow> displayName att = or_else (file_name a) ''audio'')
      else displayName att = name att)"

definition example_context :: "IncomingMessage \<Rightarrow> world \<Rightarrow> MessageContext" where
  "example_context m w = \<lparr>from_id = Some ''42'', message = Some m, world = w\<rparr>"

text \<open>A world in which every download ends in an error of the write stream.\<close>

definition stream_error_world :: world where
  "stream_error_world = example_world\<lparr>transfer_of := (\<lambda>k. StreamError)\<rparr>"



text \<open>A context whose reply throws.\<close>

definition failing_reply_context :: MessageContext where
  "failing_reply_context = example_context text_message (example_world\<lparr>reply_throws := True\<rparr>)"

definition later_context :: MessageContext where
  "later_context = example_context text_message example_world"

section \<open>Properties\<close>


subsection \<open>Decimal rendering\<close>

lemma digit_char_is_digit: "d < 10 \<Longrightarrow> is_digit (digit_char d)"
proof -
  assume "d < 10"
  then have "d \<in> {0, 1, 2, 3, 4, 5, 6, 7, 8, 9}" by auto
  then show ?thesis by (auto simp: digit_char_def is_digit_def)
qed

lemma toString_nonempty: "toString n \<noteq> []"
  by (subst toString.simps) simp

lemma toString_digits: "list_all is_digit (toString n)"
proof (induction n rule: toString.induct)
  case (1 n)
  show ?case
  proof (cases "n < 10")
    case True
    then show ?thesis by (subst toString.simps) (simp add: digit_char_is_digit)
  next
    case False
    with 1 show ?thesis by (subst toString.simps) (simp add: digit_char_is_digit)
  qed
qed

lemma toString_length_small: "n < 10 \<Longrightarrow> length (toString n) = 1"
  by (subst toString.simps) simp

lemma toString_length_two: "10 \<le> n \<Longrightarrow> n < 100 \<Longrightarrow> length (toString n) = 2"
  by (subst toString.simps) (simp add: toString_length_small)

lemma padStart_two_digits: "n < 100 \<Longrightarrow> two_digits (padStart 2 CHR ''0'' (toString n))"
proof (cases "n < 10")
  case True
  then show ?thesis
    by (simp add: two_digits_def padStart_def toString_length_small toString_digits is_digit_def)
next
  case False
  assume "n < 100"
  with False show ?thesis
    by (simp add: two_digits_def padStart_def toString_length_two toString_digits)
qed

lemma two_digits_shape: "two_digits s \<Longrightarrow> \<exists>a b. s = [a, b] \<and> is_digit a \<and> is_digit b"
  by (auto simp: two_digits_def length_Suc_conv numeral_2_eq_2)

lemma HHMMSS_of_parts:
  assumes "two_digits h" and "two_digits m" and "two_digits x"
  shows "is_HHMMSS (h @ '':'' @ m @ '':'' @ x)"
proof -
  from assms obtain a b c d e f where "h = [a, b]" "m = [c, d]" "x = [e, f]"
    and "is_digit a" "is_digit b" "is_digit c" "is_digit d" "is_digit e" "is_digit f"
    by (metis two_digits_shape)
  then show ?thesis by (simp add: is_HHMMSS_def two_digits_def)
qed

lemma getTimestamp_format:
  assumes "\<forall>t. valid_date (zone t)"
  shows "is_HHMMSS (getTimestamp zone now u)"
proof -
  define d where "d = (case u of None \<Rightarrow> zone now | Some v \<Rightarrow> if v \<noteq> 0 then zone (v * 1000) else zone now)"
  have "valid_date d"
    using assms by (simp add: d_def split: option.split)
  then have "getHours d < 100" "getMinutes d < 100" "getSeconds d < 100"
    by (simp_all add: valid_date_def)
  then have "is_HHMMSS (padStart 2 CHR ''0'' (toString (getHours d)) @ '':''
      @ padStart 2 CHR ''0'' (toString (getMinutes d)) @ '':''
      @ padStart 2 CHR ''0'' (toString (getSeconds d)))"
    by (intro HHMMSS_of_parts padStart_two_digits)
  then show ?thesis
    by (simp add: getTimestamp_def Let_def d_def)
qed

subsection \<open>Messages without media\<close>

lemma fetch_attachments_no_media:
  assumes "no_media m"
  shows "fetch_attachments w m =
    \<lparr>acts = Log Processing # content_logs m, attachments = [], suspended = False\<rparr>"
  using assms
  by (auto simp: fetch_attachments_def no_media_def no_photo_def photo_branch_def
      document_branch_def video_branch_def audio_branch_def voice_branch_def
      video_note_branch_def split: option.splits)

lemma effects_append: "effects (xs @ ys) = effects xs @ effects ys"
  by (simp add: effects_def)

lemma effects_Nil: "effects [] = []"
  by (simp add: effects_def)

lemma effects_Cons: "effects (a # as) = (if is_log a then effects as else a # effects as)"
  by (simp add: effects_def)

lemma effects_appendToNotes:
  "effects (appendToNotes cfg w content) =
     [AppendFileSync (getDayNotesFile cfg (tz w (append_clock w))) (content @ nl) (\<not> append_throws w)]"
  by (simp add: appendToNotes_def effects_def Let_def)

text \<open>
  C5.  A message that contains text, no forward provenance and no media is
  written as the fragment \<^verbatim>\<open>\n---\n**HH:MM:SS**\n\n<text>\n\n---\n\<close>.  The time is
  that of the local date of the message's own \<^verbatim>\<open>date\<close> (seconds, taken times
  1000), or of the clock when the message has no date or the date is zero:
  its hours, minutes and seconds, each in decimal and padded with a zero to two
  digits, with colons in between.  The fragment has no attachments section and
  no forwarded annotation, and the only calls besides console output are the
  append of the fragment (followed by a newline) and the reply.
\<close>

theorem text_only_fragment:
  assumes "message ctx = Some m" and "msg_text m = Some t" and "t \<noteq> []"
    and "forward_from m = None" and "forward_from_chat m = None"
    and "\<not> truthy (forward_sender_name m)"
    and "no_media m"
    and "\<forall>x. valid_date (tz (world ctx) x)"
  shows "let w = world ctx;
             d = (case date m of
                    None \<Rightarrow> tz w (stamp_clock w)
                  | Some u \<Rightarrow> if u \<noteq> 0 then tz w (u * 1000) else tz w (stamp_clock w));
             hhmmss = padStart 2 CHR ''0'' (toString (getHours d)) @ '':''
                      @ padStart 2 CHR ''0'' (toString (getMinutes d)) @ '':''
                      @ padStart 2 CHR ''0'' (toString (getSeconds d))
         in is_HHMMSS hhmmss \<and>
            effects (script cfg ctx) =
              [AppendFileSync (getDayNotesFile cfg (tz w (append_clock w)))
                 ((nl @ ''---'' @ nl @ ''**'' @ hhmmss @ ''**'' @ nl @ nl @ t @ nl @ nl @ ''---'' @ nl) @ nl)
                 (\<not> append_throws w),
               Reply saved_reply]"
proof -
  let ?w = "world ctx"
  let ?ts = "getTimestamp (tz ?w) (stamp_clock ?w) (date m)"
  let ?d = "case date m of
              None \<Rightarrow> tz ?w (stamp_clock ?w)
            | Some u \<Rightarrow> if u \<noteq> 0 then tz ?w (u * 1000) else tz ?w (stamp_clock ?w)"
  let ?hhmmss = "padStart 2 CHR ''0'' (toString (getHours ?d)) @ '':''
                 @ padStart 2 CHR ''0'' (toString (getMinutes ?d)) @ '':''
                 @ padStart 2 CHR ''0'' (toString (getSeconds ?d))"
  have ts: "?ts = ?hhmmss"
    by (simp add: getTimestamp_def Let_def)
  have fmt: "is_HHMMSS ?ts"
    using assms(8) by (rule getTimestamp_format)
  have fwd: "formatForwardInfo m = []"
    using assms(4,5,6) by (cases "forward_sender_name m") (simp_all add: formatForwardInfo_def)
  have content: "markdownContent m ?ts [] =
      nl @ ''---'' @ nl @ ''**'' @ ?ts @ ''**'' @ nl @ nl @ t @ nl @ nl @ ''---'' @ nl"
    using assms(2,3) fwd by (simp add: markdownContent_def body_text_def attachments_section_def)
  have logs: "effects (content_logs m) = []"
    using assms(2,3) by (simp add: effects_Cons effects_Nil content_logs_def)
  have "script cfg ctx = (Log Processing # content_logs m)
      @ appendToNotes cfg ?w (markdownContent m ?ts [])
      @ [Log (SavedTo (basename (getDayNotesFile cfg (tz ?w (log_clock ?w))) [])), Reply saved_reply]"
    using assms(1)
    by (simp add: script_def processMessage_def Let_def fetch_attachments_no_media [OF assms(7)])
  then have "effects (script cfg ctx) =
      [AppendFileSync (getDayNotesFile cfg (tz ?w (append_clock ?w)))
         (markdownContent m ?ts [] @ nl) (\<not> append_throws ?w), Reply saved_reply]"
    by (simp add: effects_append effects_Cons effects_Nil effects_appendToNotes logs)
  then have eff: "effects (script cfg ctx) =
      [AppendFileSync (getDayNotesFile cfg (tz ?w (append_clock ?w)))
         ((nl @ ''---'' @ nl @ ''**'' @ ?ts @ ''**'' @ nl @ nl @ t @ nl @ nl @ ''---'' @ nl) @ nl)
         (\<not> append_throws ?w), Reply saved_reply]"
    by (simp only: content)
  have "is_HHMMSS ?hhmmss \<and> effects (script cfg ctx) =
      [AppendFileSync (getDayNotesFile cfg (tz ?w (append_clock ?w)))
         ((nl @ ''---'' @ nl @ ''**'' @ ?hhmmss @ ''**'' @ nl @ nl @ t @ nl @ nl @ ''---'' @ nl) @ nl)
         (\<not> append_throws ?w), Reply saved_reply]"
    using fmt eff unfolding ts by (rule conjI)
  then show ?thesis
    unfolding Let_def .
qed

lemma example_day_file: "path_join ''/srv/bot/notes'' (toString 3 @ ''-'' @ MONTH_NAMES ! 10 @ ''.md'')
    = ''/srv/bot/notes/3-nov.md''"
  by (simp add: path_join_def MONTH_NAMES_def toString.simps digit_char_def)

theorem text_only_fragment_witness:
  "is_HHMMSS ''09:05:30'' \<and>
   effects (script example_config
      \<lparr>from_id = Some ''42'', message = Some text_message, world = example_world\<rparr>) =
     [AppendFileSync (getDayNotesFile example_config example_date)
        (nl @ ''---'' @ nl @ ''**09:05:30**'' @ nl @ nl @ ''hello'' @ nl @ nl @ ''---'' @ nl @ nl) True,
      Reply saved_reply]"
proof -
  let ?ctx = "\<lparr>from_id = Some ''42'', message = Some text_message, world = example_world\<rparr>"
  have m: "message ?ctx = Some text_message"
    by simp
  have t: "msg_text text_message = Some ''hello''" "''hello'' \<noteq> []"
    by (simp_all add: text_message_def)
  have f: "forward_from text_message = None" "forward_from_chat text_message = None"
    "\<not> truthy (forward_sender_name text_message)"
    by (simp_all add: text_message_def empty_message_def)
  have nm: "no_media text_message"
    by (simp add: no_media_def no_photo_def text_message_def empty_message_def)
  have v: "\<forall>x. valid_date (tz (world ?ctx) x)"
    by (simp add: example_world_def example_date_def valid_date_def)
  show ?thesis
    using text_only_fragment [OF m t f nm v, of example_config]
    by (simp add: Let_def text_message_def empty_message_def example_world_def
        example_date_def padStart_def toString.simps digit_char_def)
qed


subsection \<open>Forward provenance\<close>

text \<open>
  C6.  The annotation is \<^verbatim>\<open> - Forwarded from X\<close>, placed right after the bolded
  timestamp.  A named user comes first: X is \<^verbatim>\<open>@username\<close> when the username is
  present, else the first name, whatever the other two fields hold.  Without a
  named user, a named chat gives its title, whatever the free-text name holds.
  With neither, a free-text sender name gives itself.
\<close>

theorem forward_annotation_precedence:
  "(forward_from m = Some u \<and> username u = Some n \<and> n \<noteq> [] \<longrightarrow>
      formatForwardInfo m = '' - Forwarded from @'' @ n) \<and>
   (forward_from m = Some u \<and> \<not> truthy (username u) \<and> first_name u = Some f \<longrightarrow>
      formatForwardInfo m = '' - Forwarded from '' @ f) \<and>
   (forward_from m = None \<and> forward_from_chat m = Some c \<and> title c = Some t \<longrightarrow>
      formatForwardInfo m = '' - Forwarded from '' @ t) \<and>
   (forward_from m = None \<and> forward_from_chat m = None \<and> forward_sender_name m = Some s \<and> s \<noteq> [] \<longrightarrow>
      formatForwardInfo m = '' - Forwarded from '' @ s) \<and>
   (\<exists>rest. markdownContent m hhmmss atts =
      nl @ ''---'' @ nl @ ''**'' @ hhmmss @ ''**'' @ formatForwardInfo m @ rest)"
proof (intro conjI impI)
  assume "forward_from m = Some u \<and> username u = Some n \<and> n \<noteq> []"
  then show "formatForwardInfo m = '' - Forwarded from @'' @ n"
    by (simp add: formatForwardInfo_def)
next
  assume "forward_from m = Some u \<and> \<not> truthy (username u) \<and> first_name u = Some f"
  then show "formatForwardInfo m = '' - Forwarded from '' @ f"
    by (cases "username u") (simp_all add: formatForwardInfo_def)
next
  assume "forward_from m = None \<and> forward_from_chat m = Some c \<and> title c = Some t"
  then show "formatForwardInfo m = '' - Forwarded from '' @ t"
    by (simp add: formatForwardInfo_def)
next
  assume "forward_from m = None \<and> forward_from_chat m = None \<and> forward_sender_name m = Some s \<and> s \<noteq> []"
  then show "formatForwardInfo m = '' - Forwarded from '' @ s"
    by (simp add: formatForwardInfo_def)
next
  show "\<exists>rest. markdownContent m hhmmss atts =
      nl @ ''---'' @ nl @ ''**'' @ hhmmss @ ''**'' @ formatForwardInfo m @ rest"
    by (simp add: markdownContent_def)
qed

theorem forward_annotation_precedence_witness:
  "formatForwardInfo forwarded_message = '' - Forwarded from @alice'' \<and>
   formatForwardInfo (forwarded_message\<lparr>forward_from := Some \<lparr>username = None, first_name = Some ''Alice''\<rparr>\<rparr>)
     = '' - Forwarded from Alice'' \<and>
   formatForwardInfo (forwarded_message\<lparr>forward_from := None\<rparr>) = '' - Forwarded from News'' \<and>
   formatForwardInfo (forwarded_message\<lparr>forward_from := None, forward_from_chat := None\<rparr>)
     = '' - Forwarded from Bob''"
proof (intro conjI)
  show "formatForwardInfo forwarded_message = '' - Forwarded from @alice''"
    using forward_annotation_precedence
      [of forwarded_message "\<lparr>username = Some ''alice'', first_name = Some ''Alice''\<rparr>" "''alice''"]
    by (simp add: forwarded_message_def text_message_def empty_message_def)
next
  show "formatForwardInfo (forwarded_message\<lparr>forward_from := Some \<lparr>username = None, first_name = Some ''Alice''\<rparr>\<rparr>)
     = '' - Forwarded from Alice''"
    using forward_annotation_precedence
      [of "forwarded_message\<lparr>forward_from := Some \<lparr>username = None, first_name = Some ''Alice''\<rparr>\<rparr>"
          "\<lparr>username = None, first_name = Some ''Alice''\<rparr>" _ "''Alice''"]
    by (simp add: forwarded_message_def text_message_def empty_message_def)
next
  show "formatForwardInfo (forwarded_message\<lparr>forward_from := None\<rparr>) = '' - Forwarded from News''"
    using forward_annotation_precedence
      [of "forwarded_message\<lparr>forward_from := None\<rparr>" _ _ _ "\<lparr>title = Some ''News''\<rparr>" "''News''"]
    by (simp add: forwarded_message_def text_message_def empty_message_def)
next
  show "formatForwardInfo (forwarded_message\<lparr>forward_from := None, forward_from_chat := None\<rparr>)
     = '' - Forwarded from Bob''"
    using forward_annotation_precedence
      [of "forwarded_message\<lparr>forward_from := None, forward_from_chat := None\<rparr>" _ _ _ _ _ "''Bob''"]
    by (simp add: forwarded_message_def text_message_def empty_message_def)
qed

subsection \<open>The calls of the attachment branches\<close>

lemma downloadFile_is_download: "list_all is_download (fst (downloadFile t i n))"
  by (cases t) simp_all

lemma fetch_is_download:
  "list_all is_download (acts p) \<Longrightarrow> list_all is_download (acts (fetch w k i n l orig p))"
  using downloadFile_is_download [of "transfer_of w k" i n]
  by (auto simp: fetch_def split: prod.splits download.splits)

lemma content_logs_is_download: "list_all is_download (content_logs m)"
  by (cases "msg_text m"; cases "caption m") (simp_all add: content_logs_def)

lemma fetch_attachments_is_download: "list_all is_download (acts (fetch_attachments w m))"
proof -
  have b1: "list_all is_download (acts (photo_branch w m p))" if "list_all is_download (acts p)" for p
    using that by (simp add: photo_branch_def fetch_is_download split: option.split)
  have b2: "list_all is_download (acts (document_branch w m p))" if "list_all is_download (acts p)" for p
    using that by (simp add: document_branch_def Let_def fetch_is_download split: option.split)
  have b3: "list_all is_download (acts (video_branch w m p))" if "list_all is_download (acts p)" for p
    using that by (simp add: video_branch_def fetch_is_download split: option.split)
  have b4: "list_all is_download (acts (audio_branch w m p))" if "list_all is_download (acts p)" for p
    using that by (simp add: audio_branch_def Let_def fetch_is_download split: option.split)
  have b5: "list_all is_download (acts (voice_branch w m p))" if "list_all is_download (acts p)" for p
    using that by (simp add: voice_branch_def fetch_is_download split: option.split)
  have b6: "list_all is_download (acts (video_note_branch w m p))" if "list_all is_download (acts p)" for p
    using that by (simp add: video_note_branch_def fetch_is_download split: option.split)
  have b0: "list_all is_download
      (acts \<lparr>acts = Log Processing # content_logs m, attachments = [], suspended = False\<rparr>)"
    by (simp add: content_logs_is_download)
  show ?thesis
    unfolding fetch_attachments_def by (intro b6 b5 b4 b3 b2 b1 b0)
qed

lemma append_targets_append: "append_targets (xs @ ys) = append_targets xs @ append_targets ys"
  by (simp add: append_targets_def List.map_filter_def)

lemma append_targets_download: "list_all is_download as \<Longrightarrow> append_targets as = []"
proof (induction as)
  case Nil
  then show ?case by (simp add: append_targets_def List.map_filter_def)
next
  case (Cons a as)
  then show ?case by (cases a) (simp_all add: append_targets_def List.map_filter_def)
qed

lemma append_targets_appendToNotes:
  "append_targets (appendToNotes cfg w content) = [getDayNotesFile cfg (tz w (append_clock w))]"
  by (simp add: appendToNotes_def append_targets_def List.map_filter_def Let_def)

subsection \<open>The shape of a run of \<^verbatim>\<open>processMessage\<close>\<close>

lemma outcome_Suspended:
  "message ctx = Some m \<Longrightarrow>
   (snd (processMessage cfg ctx) = Suspended) = suspended (fetch_attachments (world ctx) m)"
  by (simp add: processMessage_def Let_def)

lemma script_settled:
  assumes "message ctx = Some m" and "\<not> suspended (fetch_attachments (world ctx) m)"
  shows "script cfg ctx =
    acts (fetch_attachments (world ctx) m)
    @ appendToNotes cfg (world ctx)
        (markdownContent m (getTimestamp (tz (world ctx)) (stamp_clock (world ctx)) (date m))
           (attachments (fetch_attachments (world ctx) m)))
    @ [Log (SavedTo (basename (getDayNotesFile cfg (tz (world ctx) (log_clock (world ctx)))) [])),
       Reply saved_reply]"
  using assms by (simp add: script_def processMessage_def Let_def)

lemma append_targets_script:
  assumes "message ctx = Some m" and "snd (processMessage cfg ctx) \<noteq> Suspended"
  shows "append_targets (script cfg ctx) =
    [getDayNotesFile cfg (tz (world ctx) (append_clock (world ctx)))]"
proof -
  have ns: "\<not> suspended (fetch_attachments (world ctx) m)"
    using assms by (simp add: outcome_Suspended)
  have "append_targets [Log (SavedTo x), Reply saved_reply] = []" for x
    by (simp add: append_targets_def List.map_filter_def)
  then show ?thesis
    by (simp add: script_settled [OF assms(1) ns] append_targets_append
        append_targets_appendToNotes append_targets_download fetch_attachments_is_download)
qed

subsection \<open>The day file\<close>

lemma month_names_shape: "\<forall>s \<in> set MONTH_NAMES. length s = 3 \<and> list_all is_lower s"
  by (simp add: MONTH_NAMES_def is_lower_def)

lemma getDayNotesFile_cong:
  "getDate d = getDate e \<Longrightarrow> getMonth d = getMonth e \<Longrightarrow> getDayNotesFile cfg d = getDayNotesFile cfg e"
  by (simp add: getDayNotesFile_def)

text \<open>
  C10.  The path of the day file is computed from the local calendar date at
  the time of processing alone: two dates of the same calendar day give the
  same path, which is the notes directory, the day of the month in decimal, a
  hyphen, the entry of \<^verbatim>\<open>MONTH_NAMES\<close> for the month of that date (three
  lower-case letters) and \<^verbatim>\<open>.md\<close>.  Two messages whose appends happen on the same
  local calendar day are appended to that one file, whatever their own \<^verbatim>\<open>date\<close>
  fields are.
\<close>

theorem day_file_of_processing_day:
  assumes "message c1 = Some m1" and "message c2 = Some m2"
    and "snd (processMessage cfg c1) \<noteq> Suspended" and "snd (processMessage cfg c2) \<noteq> Suspended"
    and "d1 = tz (world c1) (append_clock (world c1))"
    and "d2 = tz (world c2) (append_clock (world c2))"
    and "same_calendar_day d1 d2" and "valid_date d1"
  shows "getDayNotesFile cfg d1 = getDayNotesFile cfg d2 \<and>
    getDayNotesFile cfg d1 =
      path_join (NOTES_DIR cfg) (toString (getDate d1) @ ''-'' @ MONTH_NAMES ! getMonth d1 @ ''.md'') \<and>
    length (MONTH_NAMES ! getMonth d1) = 3 \<and> list_all is_lower (MONTH_NAMES ! getMonth d1) \<and>
    append_targets (script cfg c1) = [getDayNotesFile cfg d1] \<and>
    append_targets (script cfg c2) = [getDayNotesFile cfg d1]"
proof -
  have same: "getDayNotesFile cfg d1 = getDayNotesFile cfg d2"
    using assms(7) by (intro getDayNotesFile_cong) (simp_all add: same_calendar_day_def)
  have "getMonth d1 < length MONTH_NAMES"
    using assms(8) by (simp add: valid_date_def MONTH_NAMES_def)
  then have mon: "length (MONTH_NAMES ! getMonth d1) = 3 \<and> list_all is_lower (MONTH_NAMES ! getMonth d1)"
    and name: "month_name (getMonth d1) = Some (MONTH_NAMES ! getMonth d1)"
    using month_names_shape by (simp_all add: month_name_def)
  have path: "getDayNotesFile cfg d1 =
      path_join (NOTES_DIR cfg) (toString (getDate d1) @ ''-'' @ MONTH_NAMES ! getMonth d1 @ ''.md'')"
    by (simp add: getDayNotesFile_def Let_def name)
  have t1: "append_targets (script cfg c1) = [getDayNotesFile cfg d1]"
    using append_targets_script [OF assms(1,3)] assms(5) by simp
  have t2: "append_targets (script cfg c2) = [getDayNotesFile cfg d1]"
    using append_targets_script [OF assms(2,4)] assms(6) same by simp
  show ?thesis
  proof (intro conjI)
    show "getDayNotesFile cfg d1 = getDayNotesFile cfg d2" by (rule same)
    show "getDayNotesFile cfg d1 =
      path_join (NOTES_DIR cfg) (toString (getDate d1) @ ''-'' @ MONTH_NAMES ! getMonth d1 @ ''.md'')"
      by (rule path)
    show "length (MONTH_NAMES ! getMonth d1) = 3" using mon by (rule conjunct1)
    show "list_all is_lower (MONTH_NAMES ! getMonth d1)" using mon by (rule conjunct2)
    show "append_targets (script cfg c1) = [getDayNotesFile cfg d1]" by (rule t1)
    show "append_targets (script cfg c2) = [getDayNotesFile cfg d1]" by (rule t2)
  qed
qed

theorem day_file_of_processing_day_witness:
  "getDayNotesFile example_config example_date = ''/srv/bot/notes/3-nov.md'' \<and>
   append_targets (script example_config
      \<lparr>from_id = Some ''42'', message = Some text_message, world = example_world\<rparr>)
     = [''/srv/bot/notes/3-nov.md''] \<and>
   append_targets (script example_config
      \<lparr>from_id = Some ''42'', message = Some (text_message\<lparr>date := Some 86400\<rparr>),
        world = example_world\<lparr>append_clock := 1700000050000\<rparr>\<rparr>)
     = [''/srv/bot/notes/3-nov.md'']"
proof -
  let ?c1 = "\<lparr>from_id = Some ''42'', message = Some text_message, world = example_world\<rparr>"
  let ?c2 = "\<lparr>from_id = Some ''42'', message = Some (text_message\<lparr>date := Some 86400\<rparr>),
        world = example_world\<lparr>append_clock := 1700000050000\<rparr>\<rparr>"
  have nm: "no_media text_message" "no_media (text_message\<lparr>date := Some 86400\<rparr>)"
    by (simp_all add: no_media_def no_photo_def text_message_def empty_message_def)
  have s1: "snd (processMessage example_config ?c1) \<noteq> Suspended"
    using outcome_Suspended [of ?c1 text_message example_config]
    by (simp add: fetch_attachments_no_media nm)
  have s2: "snd (processMessage example_config ?c2) \<noteq> Suspended"
    using outcome_Suspended [of ?c2 "text_message\<lparr>date := Some 86400\<rparr>" example_config]
    by (simp add: fetch_attachments_no_media nm)
  have d1: "example_date = tz (world ?c1) (append_clock (world ?c1))"
    and d2: "example_date = tz (world ?c2) (append_clock (world ?c2))"
    by (simp_all add: example_world_def)
  have same: "same_calendar_day example_date example_date"
    by (simp add: same_calendar_day_def)
  have valid: "valid_date example_date"
    by (simp add: valid_date_def example_date_def)
  have fields: "getDate example_date = 3" "getMonth example_date = 10"
    "NOTES_DIR example_config = ''/srv/bot/notes''"
    by (simp_all add: example_date_def example_config_def)
  have all: "getDayNotesFile example_config example_date =
        path_join (NOTES_DIR example_config)
          (toString (getDate example_date) @ ''-'' @ MONTH_NAMES ! getMonth example_date @ ''.md'') \<and>
      append_targets (script example_config ?c1) = [getDayNotesFile example_config example_date] \<and>
      append_targets (script example_config ?c2) = [getDayNotesFile example_config example_date]"
    using day_file_of_processing_day [OF _ _ s1 s2 d1 d2 same valid] by simp
  then have p: "getDayNotesFile example_config example_date = ''/srv/bot/notes/3-nov.md''"
    by (simp only: fields example_day_file)
  with all show ?thesis by simp
qed


subsection \<open>Stored file names\<close>

lemma not_digit_underscore: "\<not> is_digit CHR ''_''"
  by (simp add: is_digit_def)

lemma not_lower_alnum_underscore: "\<not> is_lower_alnum CHR ''_''"
  by (simp add: is_lower_alnum_def is_lower_def is_digit_def)

lemma stored_name_pattern_intro:
  assumes "list_all is_lower_alnum tok" and "lo \<le> length tok" and "length tok \<le> hi"
  shows "stored_name_pattern lo hi (toString n @ ''_'' @ tok @ ''_plan_v2.docx'')"
proof -
  have digits: "\<And>c. c \<in> set (toString n) \<Longrightarrow> is_digit c"
    using toString_digits [of n] by (simp add: list_all_iff)
  have token: "\<And>c. c \<in> set tok \<Longrightarrow> is_lower_alnum c"
    using assms(1) by (simp add: list_all_iff)
  have t1: "takeWhile is_digit (toString n @ CHR ''_'' # tok @ ''_plan_v2.docx'') = toString n"
    using digits by (simp add: takeWhile_append2 not_digit_underscore)
  have d1: "dropWhile is_digit (toString n @ CHR ''_'' # tok @ ''_plan_v2.docx'')
      = CHR ''_'' # tok @ ''_plan_v2.docx''"
    using digits by (simp add: dropWhile_append2 not_digit_underscore)
  have t2: "takeWhile is_lower_alnum (tok @ ''_plan_v2.docx'') = tok"
    using token by (simp add: takeWhile_append2 not_lower_alnum_underscore)
  have d2: "dropWhile is_lower_alnum (tok @ ''_plan_v2.docx'') = ''_plan_v2.docx''"
    using token by (simp add: dropWhile_append2 not_lower_alnum_underscore)
  show ?thesis
    using assms(2,3) by (simp add: stored_name_pattern_def t1 d1 t2 d2 toString_nonempty)
qed

lemma radix36_token:
  assumes "radix36 r"
  shows "list_all is_lower_alnum (substring 2 8 r)" and "length (substring 2 8 r) \<le> 6"
    and "8 \<le> length r \<Longrightarrow> length (substring 2 8 r) = 6"
proof -
  have "list_all is_lower_alnum (drop 2 r)"
    using assms by (auto simp: radix36_def)
  then show "list_all is_lower_alnum (substring 2 8 r)"
    by (auto simp: substring_def list_all_iff dest: in_set_takeD)
  show "length (substring 2 8 r) \<le> 6"
    by (simp add: substring_def)
  show "8 \<le> length r \<Longrightarrow> length (substring 2 8 r) = 6"
    by (simp add: substring_def)
qed

lemma extname_plan: "extname ''plan v2.docx'' = ''.docx''"
  by (simp add: extname_def last_component_def is_slash_def Let_def)

lemma basename_plan: "basename ''plan v2.docx'' ''.docx'' = ''plan v2''"
  by (simp add: basename_def last_component_def is_slash_def Let_def)

lemma sanitize_plan: "sanitize ''plan v2'' = ''plan_v2''"
  by (simp add: sanitize_def is_alnum_def is_lower_def is_upper_def is_digit_def)

lemma fetch_Finished:
  assumes "\<not> suspended p" and "transfer_of w k = Finished" and "fileName \<noteq> []"
  shows "fetch w k fileId fileName label orig p =
    p\<lparr>acts := acts p @ [GetFileLink fileId, CreateWriteStream fileName, HttpsGet fileId,
                          Log (Saved fileName)],
      attachments := attachments p @ [\<lparr>name = fileName, type = label, originalName = orig\<rparr>]\<rparr>"
  using assms by (simp add: fetch_def)

lemma generateFileName_nonempty: "generateFileName t r b e \<noteq> []"
  by (simp add: generateFileName_def Let_def toString_nonempty)

text \<open>
  C3, as amended.  For a document declared as \<^verbatim>\<open>plan v2.docx\<close> whose download
  finishes, the stored name is the decimal clock reading, an underscore, the
  characters 2 to 7 of the base-36 rendering of the random number, an
  underscore, and \<^verbatim>\<open>plan_v2.docx\<close>.  The token has at most six characters of
  \<^verbatim>\<open>[a-z0-9]\<close>, so the name matches \<^verbatim>\<open>^\d+_[a-z0-9]{0,6}_plan_v2\.docx$\<close>; it
  has exactly six, and the name matches the pattern with \<^verbatim>\<open>{6}\<close>, when the
  rendering has at least six digits after the point.  The entry keeps the
  declared name as its original name.
\<close>

theorem plan_document_stored_name:
  assumes "document m = Some d" and "file_name d = Some ''plan v2.docx''"
    and "radix36 (random36 w Document)"
    and "\<not> suspended p" and "transfer_of w Document = Finished"
  shows "\<exists>stored.
    attachments (document_branch w m p) =
      attachments p @ [\<lparr>name = stored, type = ''Document'', originalName = Some ''plan v2.docx''\<rparr>] \<and>
    stored = toString (name_clock w Document) @ ''_'' @ substring 2 8 (random36 w Document)
               @ ''_plan_v2.docx'' \<and>
    stored_name_pattern 0 6 stored \<and>
    (8 \<le> length (random36 w Document) \<longrightarrow> stored_name_pattern 6 6 stored)"
proof -
  let ?tok = "substring 2 8 (random36 w Document)"
  let ?stored = "toString (name_clock w Document) @ ''_'' @ ?tok @ ''_plan_v2.docx''"
  have gen: "fileName_for w Document ''plan v2'' ''.docx'' = ?stored"
    by (simp add: fileName_for_def generateFileName_def Let_def sanitize_plan)
  have ne: "?stored \<noteq> []"
    by (simp add: toString_nonempty)
  have "document_branch w m p =
      fetch w Document (file_id d) ?stored ''Document'' (Some ''plan v2.docx'') p"
    using assms(1,2) gen
    by (simp add: document_branch_def Let_def extname_plan basename_plan or_else_def)
  then have atts: "attachments (document_branch w m p) =
      attachments p @ [\<lparr>name = ?stored, type = ''Document'', originalName = Some ''plan v2.docx''\<rparr>]"
    using fetch_Finished [OF assms(4,5) ne] by simp
  have p06: "stored_name_pattern 0 6 ?stored"
    using radix36_token(1,2) [OF assms(3)] by (intro stored_name_pattern_intro) simp_all
  have p66: "stored_name_pattern 6 6 ?stored" if "8 \<le> length (random36 w Document)"
    using radix36_token(1) [OF assms(3)] radix36_token(3) [OF assms(3) that]
    by (intro stored_name_pattern_intro) simp_all
  from atts p06 p66 show ?thesis by blast
qed

lemma plan_example_premises:
  "document plan_message = Some \<lparr>file_id = ''F1'', file_name = Some ''plan v2.docx''\<rparr>"
  "radix36 (random36 example_world Document)"
  "radix36 (random36 half_world Document)"
  "\<not> suspended start_progress"
  "transfer_of example_world Document = Finished"
  "transfer_of half_world Document = Finished"
  by (simp_all add: plan_message_def empty_message_def example_world_def half_world_def
      start_progress_def radix36_def is_lower_alnum_def is_lower_def is_digit_def)

lemma toString_example_clock: "toString 1700000000123 = ''1700000000123''"
  by (simp add: toString.simps digit_char_def)

theorem plan_document_stored_name_witness:
  "attachments (document_branch example_world plan_message start_progress) =
     [\<lparr>name = ''1700000000123_4fzyo8_plan_v2.docx'', type = ''Document'',
       originalName = Some ''plan v2.docx''\<rparr>] \<and>
   stored_name_pattern 6 6 ''1700000000123_4fzyo8_plan_v2.docx''"
proof -
  have "\<exists>stored.
    attachments (document_branch example_world plan_message start_progress) =
      attachments start_progress
        @ [\<lparr>name = stored, type = ''Document'', originalName = Some ''plan v2.docx''\<rparr>] \<and>
    stored = toString (name_clock example_world Document) @ ''_''
               @ substring 2 8 (random36 example_world Document) @ ''_plan_v2.docx'' \<and>
    stored_name_pattern 0 6 stored \<and>
    (8 \<le> length (random36 example_world Document) \<longrightarrow> stored_name_pattern 6 6 stored)"
    by (rule plan_document_stored_name [OF plan_example_premises(1) _ plan_example_premises(2,4,5)]) simp
  then obtain stored where
    a: "attachments (document_branch example_world plan_message start_progress) =
      attachments start_progress
        @ [\<lparr>name = stored, type = ''Document'', originalName = Some ''plan v2.docx''\<rparr>]"
    and s: "stored = toString (name_clock example_world Document) @ ''_''
               @ substring 2 8 (random36 example_world Document) @ ''_plan_v2.docx''"
    and p: "8 \<le> length (random36 example_world Document) \<longrightarrow> stored_name_pattern 6 6 stored"
    by blast
  have v: "toString (name_clock example_world Document) @ ''_''
      @ substring 2 8 (random36 example_world Document) @ ''_plan_v2.docx''
      = ''1700000000123_4fzyo8_plan_v2.docx''"
    by (simp add: example_world_def toString_example_clock substring_def)
  have len: "8 \<le> length (random36 example_world Document)"
    by (simp add: example_world_def)
  from s v have "stored = ''1700000000123_4fzyo8_plan_v2.docx''"
    by (rule trans)
  with a p len show ?thesis
    by (simp add: start_progress_def)
qed

text \<open>
  The claim with exactly six characters fails when the random number is one
  half: its rendering is \<^verbatim>\<open>0.i\<close>, the token is \<^verbatim>\<open>i\<close>, and the stored name does
  not match \<^verbatim>\<open>^\d+_[a-z0-9]{6}_plan_v2\.docx$\<close>.
\<close>

theorem plan_document_short_token:
  "attachments (document_branch half_world plan_message start_progress) =
     [\<lparr>name = ''1700000000123_i_plan_v2.docx'', type = ''Document'',
       originalName = Some ''plan v2.docx''\<rparr>] \<and>
   \<not> stored_name_pattern 6 6 ''1700000000123_i_plan_v2.docx''"
proof
  have gen: "fileName_for half_world Document ''plan v2'' ''.docx'' = ''1700000000123_i_plan_v2.docx''"
    by (simp add: fileName_for_def generateFileName_def Let_def sanitize_plan half_world_def
        example_world_def toString_example_clock substring_def)
  have "document_branch half_world plan_message start_progress =
      fetch half_world Document ''F1'' ''1700000000123_i_plan_v2.docx'' ''Document''
        (Some ''plan v2.docx'') start_progress"
    using gen
    by (simp add: document_branch_def Let_def extname_plan basename_plan or_else_def
        plan_example_premises(1))
  then show "attachments (document_branch half_world plan_message start_progress) =
     [\<lparr>name = ''1700000000123_i_plan_v2.docx'', type = ''Document'',
       originalName = Some ''plan v2.docx''\<rparr>]"
    using fetch_Finished [OF plan_example_premises(4,6), of "''1700000000123_i_plan_v2.docx''"]
    by (simp add: start_progress_def)
next
  show "\<not> stored_name_pattern 6 6 ''1700000000123_i_plan_v2.docx''"
    by (simp add: stored_name_pattern_def is_digit_def is_lower_alnum_def is_lower_def)
qed


subsection \<open>Display names\<close>

lemma fetch_attachments_subset:
  "set (attachments (fetch w k i n l orig p)) \<subseteq>
     set (attachments p) \<union> {\<lparr>name = n, type = l, originalName = orig\<rparr>}"
  by (cases "transfer_of w k") (auto simp: fetch_def)

lemma display_rule_plain:
  "l \<noteq> ''Document'' \<Longrightarrow> l \<noteq> ''Audio'' \<Longrightarrow>
   display_rule m \<lparr>name = n, type = l, originalName = None\<rparr>"
  by (simp add: display_rule_def displayName_def or_else_def)

lemma display_rule_document:
  "document m = Some d \<Longrightarrow>
   display_rule m \<lparr>name = n, type = ''Document'',
     originalName = Some (or_else (file_name d)
       (when_truthy (file_name d) (\<lambda>x. basename x e) ''document''))\<rparr>"
  by (cases "file_name d") (simp_all add: display_rule_def displayName_def or_else_def)

lemma display_rule_audio:
  "audio m = Some a \<Longrightarrow>
   display_rule m \<lparr>name = n, type = ''Audio'',
     originalName = Some (or_else (file_name a)
       (when_truthy (file_name a) (\<lambda>x. basename x e) ''audio''))\<rparr>"
  by (cases "file_name a") (simp_all add: display_rule_def displayName_def or_else_def)

lemma display_rule_fetch:
  assumes "\<forall>att \<in> set (attachments p). display_rule m att"
    and "display_rule m \<lparr>name = n, type = l, originalName = orig\<rparr>"
  shows "\<forall>att \<in> set (attachments (fetch w k i n l orig p)). display_rule m att"
proof
  fix att
  assume "att \<in> set (attachments (fetch w k i n l orig p))"
  then have "att \<in> set (attachments p) \<union> {\<lparr>name = n, type = l, originalName = orig\<rparr>}"
    using fetch_attachments_subset [of w k i n l orig p] by (rule_tac subsetD)
  then have "att \<in> set (attachments p) \<or> att = \<lparr>name = n, type = l, originalName = orig\<rparr>"
    by (simp only: Un_iff singleton_iff)
  then show "display_rule m att"
  proof
    assume "att \<in> set (attachments p)"
    with assms(1) show ?thesis by (rule bspec)
  next
    assume "att = \<lparr>name = n, type = l, originalName = orig\<rparr>"
    with assms(2) show ?thesis by (simp only:)
  qed
qed

lemma photo_branch_shape:
  "photo_branch w m p = p \<or> (\<exists>i n. photo_branch w m p = fetch w Photo i n ''Photo'' None p)"
  by (simp add: photo_branch_def split: option.split) blast

lemma document_branch_shape:
  "document_branch w m p = p \<or>
   (\<exists>d n e. document m = Some d \<and>
      document_branch w m p = fetch w Document (file_id d) n ''Document''
        (Some (or_else (file_name d) (when_truthy (file_name d) (\<lambda>x. basename x e) ''document''))) p)"
  by (simp add: document_branch_def Let_def split: option.split) blast

lemma video_branch_shape:
  "video_branch w m p = p \<or> (\<exists>i n. video_branch w m p = fetch w Video i n ''Video'' None p)"
  by (simp add: video_branch_def split: option.split) blast

lemma audio_branch_shape:
  "audio_branch w m p = p \<or>
   (\<exists>a n e. audio m = Some a \<and>
      audio_branch w m p = fetch w Audio (file_id a) n ''Audio''
        (Some (or_else (file_name a) (when_truthy (file_name a) (\<lambda>x. basename x e) ''audio''))) p)"
  by (simp add: audio_branch_def Let_def split: option.split) blast

lemma voice_branch_shape:
  "voice_branch w m p = p \<or> (\<exists>i n. voice_branch w m p = fetch w Voice i n ''Voice'' None p)"
  by (simp add: voice_branch_def split: option.split) blast

lemma video_note_branch_shape:
  "video_note_branch w m p = p \<or>
   (\<exists>i n. video_note_branch w m p = fetch w VideoNote i n ''Video Note'' None p)"
  by (simp add: video_note_branch_def split: option.split) blast

lemma display_rule_fetch_attachments:
  "\<forall>att \<in> set (attachments (fetch_attachments w m)). display_rule m att"
proof -
  let ?ok = "\<lambda>p. \<forall>att \<in> set (attachments p). display_rule m att"
  have plain: "?ok (fetch w k i n l None p)"
    if "?ok p" and "l \<noteq> ''Document''" and "l \<noteq> ''Audio''" for p k i n l
    using that(1) display_rule_plain [OF that(2,3)] by (rule display_rule_fetch)
  have b1: "?ok (photo_branch w m p)" if "?ok p" for p
    using photo_branch_shape [of w m p] that plain [OF that, of "''Photo''"] by fastforce
  have b2: "?ok (document_branch w m p)" if "?ok p" for p
    using document_branch_shape [of w m p] that
      display_rule_fetch [OF that display_rule_document] by fastforce
  have b3: "?ok (video_branch w m p)" if "?ok p" for p
    using video_branch_shape [of w m p] that plain [OF that, of "''Video''"] by fastforce
  have b4: "?ok (audio_branch w m p)" if "?ok p" for p
    using audio_branch_shape [of w m p] that
      display_rule_fetch [OF that display_rule_audio] by fastforce
  have b5: "?ok (voice_branch w m p)" if "?ok p" for p
    using voice_branch_shape [of w m p] that plain [OF that, of "''Voice''"] by fastforce
  have b6: "?ok (video_note_branch w m p)" if "?ok p" for p
    using video_note_branch_shape [of w m p] that plain [OF that, of "''Video Note''"] by fastforce
  have b0: "?ok \<lparr>acts = Log Processing # content_logs m, attachments = [], suspended = False\<rparr>"
    by simp
  show ?thesis
    unfolding fetch_attachments_def by (intro b6 b5 b4 b3 b2 b1 b0)
qed

lemma render_attachment_shows_displayName:
  "\<exists>rest. render_attachment att =
     (if type att \<in> set [''Photo'', ''Video'', ''Video Note''] then ''!['' else ''- ['')
     @ displayName att @ rest"
  by (simp add: render_attachment_def Let_def)

lemma unnamed_document_attachments:
  "attachments (fetch_attachments example_world unnamed_document_message) =
     [\<lparr>name = ''1700000000123_4fzyo8_document.bin'', type = ''Document'',
       originalName = Some ''document''\<rparr>]"
proof -
  have gen: "fileName_for example_world Document ''document'' ''.bin''
      = ''1700000000123_4fzyo8_document.bin''"
    by (simp add: fileName_for_def generateFileName_def Let_def example_world_def
        toString_example_clock substring_def sanitize_def is_alnum_def is_lower_def)
  have fin: "transfer_of example_world k = Finished" for k
    by (simp add: example_world_def)
  show ?thesis
    by (simp add: fetch_attachments_def photo_branch_def document_branch_def video_branch_def
        audio_branch_def voice_branch_def video_note_branch_def unnamed_document_message_def
        empty_message_def Let_def or_else_def gen fetch_def fin)
qed

text \<open>
  C4, as amended.  Every entry of the attachments section is rendered with its
  display name in the link or the embed.  For a document or an audio file the
  display name is the declared file name when that is present and not empty,
  and otherwise the word \<^verbatim>\<open>document\<close> or \<^verbatim>\<open>audio\<close>; for a photo, a video, a voice
  clip and a video note it is the stored file name.
\<close>

theorem display_name_of_entry:
  assumes "att \<in> set (attachments (fetch_attachments w m))"
  shows "display_rule m att \<and>
    (\<exists>rest. render_attachment att =
       (if type att \<in> set [''Photo'', ''Video'', ''Video Note''] then ''!['' else ''- ['')
       @ displayName att @ rest)"
proof
  show "display_rule m att"
    using assms display_rule_fetch_attachments [of w m] by (rule_tac bspec)
  show "\<exists>rest. render_attachment att =
       (if type att \<in> set [''Photo'', ''Video'', ''Video Note''] then ''!['' else ''- ['')
       @ displayName att @ rest"
    by (rule render_attachment_shows_displayName)
qed

theorem display_name_of_entry_witness:
  "display_rule unnamed_document_message
     \<lparr>name = ''1700000000123_4fzyo8_document.bin'', type = ''Document'',
       originalName = Some ''document''\<rparr>"
  using display_name_of_entry
    [of "\<lparr>name = ''1700000000123_4fzyo8_document.bin'', type = ''Document'',
           originalName = Some ''document''\<rparr>" example_world unnamed_document_message]
  by (simp add: unnamed_document_attachments)

text \<open>
  The claim as stated fails for a document that declares no file name: its
  display name is the word \<^verbatim>\<open>document\<close>, not the stored file name.
\<close>

theorem unnamed_document_display_name:
  "document unnamed_document_message = Some \<lparr>file_id = ''F1'', file_name = None\<rparr> \<and>
   attachments (fetch_attachments example_world unnamed_document_message) =
     [\<lparr>name = ''1700000000123_4fzyo8_document.bin'', type = ''Document'',
       originalName = Some ''document''\<rparr>] \<and>
   displayName \<lparr>name = ''1700000000123_4fzyo8_document.bin'', type = ''Document'',
       originalName = Some ''document''\<rparr> = ''document'' \<and>
   displayName \<lparr>name = ''1700000000123_4fzyo8_document.bin'', type = ''Document'',
       originalName = Some ''document''\<rparr>
     \<noteq> name \<lparr>name = ''1700000000123_4fzyo8_document.bin'', type = ''Document'',
       originalName = Some ''document''\<rparr> \<and>
   render_attachment \<lparr>name = ''1700000000123_4fzyo8_document.bin'', type = ''Document'',
       originalName = Some ''document''\<rparr> =
     ''- [document](../attachments/1700000000123_4fzyo8_document.bin) _(Document)_'' @ nl"
  by (simp add: unnamed_document_attachments)
     (simp add: unnamed_document_message_def empty_message_def displayName_def or_else_def
        render_attachment_def)


subsection \<open>Authorization gate\<close>

text \<open>
  C7.  An event whose sender identity is absent, or is not equal as a string to
  the configured identity, leaves the queue, the flag and the running calls as
  they are and adds one line of console output: nothing is appended, fetched or
  replied.
\<close>

theorem unauthorized_dropped:
  assumes "from_id ctx \<noteq> Some (ALLOWED_USER_ID cfg)"
  shows "\<exists>l. on_message cfg ctx s = s\<lparr>trace := trace s @ [Log l]\<rparr> \<and>
    effects (trace (on_message cfg ctx s)) = effects (trace s)"
proof (cases "truthy (from_id ctx)")
  case True
  with assms have "on_message cfg ctx s =
      s\<lparr>trace := trace s @ [Log (RejectedUnauthorized (interpolate (from_id ctx)))]\<rparr>"
    by (simp add: on_message_def Let_def)
  then show ?thesis
    by (intro exI [of _ "RejectedUnauthorized (interpolate (from_id ctx))"])
       (simp add: effects_append effects_Cons effects_Nil)
next
  case False
  then have "on_message cfg ctx s = s\<lparr>trace := trace s @ [Log RejectedNoSender]\<rparr>"
    by (simp add: on_message_def Let_def)
  then show ?thesis
    by (intro exI [of _ RejectedNoSender]) (simp add: effects_append effects_Cons effects_Nil)
qed

theorem unauthorized_dropped_witness:
  "(\<exists>l. on_message example_config \<lparr>from_id = Some ''7'', message = Some text_message, world = example_world\<rparr> initial
      = initial\<lparr>trace := [Log l]\<rparr>) \<and>
   (\<exists>l. on_message example_config \<lparr>from_id = None, message = Some text_message, world = example_world\<rparr> initial
      = initial\<lparr>trace := [Log l]\<rparr>)"
  using unauthorized_dropped
      [of "\<lparr>from_id = Some ''7'', message = Some text_message, world = example_world\<rparr>"
          example_config initial]
    unauthorized_dropped
      [of "\<lparr>from_id = None, message = Some text_message, world = example_world\<rparr>"
          example_config initial]
  by (simp add: example_config_def initial_def)

subsection \<open>Failure of the archive append\<close>

text \<open>
  C9.  When the processing of a message reaches the append and the append
  throws, the error is written to the console, the reply is sent all the same
  as the last call, and the outcome of \<^verbatim>\<open>processMessage\<close> is decided by the reply
  alone: it returns unless the reply throws.
\<close>

theorem append_failure_acknowledged:
  assumes "message ctx = Some m" and "snd (processMessage cfg ctx) \<noteq> Suspended"
    and "append_throws (world ctx)"
  shows "\<exists>pre path data saved.
    script cfg ctx = pre @ [AppendFileSync path data False, Log NotesWriteError,
                            Log (SavedTo saved), Reply saved_reply] \<and>
    list_all is_download pre \<and>
    snd (processMessage cfg ctx) = (if reply_throws (world ctx) then Threw else Returned)"
proof -
  have ns: "\<not> suspended (fetch_attachments (world ctx) m)"
    using assms(1,2) by (simp add: outcome_Suspended)
  have out: "snd (processMessage cfg ctx) = (if reply_throws (world ctx) then Threw else Returned)"
    using assms(1) ns by (simp add: processMessage_def Let_def)
  have "script cfg ctx = acts (fetch_attachments (world ctx) m)
      @ [AppendFileSync (getDayNotesFile cfg (tz (world ctx) (append_clock (world ctx))))
           (markdownContent m (getTimestamp (tz (world ctx)) (stamp_clock (world ctx)) (date m))
              (attachments (fetch_attachments (world ctx) m)) @ nl) False,
         Log NotesWriteError,
         Log (SavedTo (basename (getDayNotesFile cfg (tz (world ctx) (log_clock (world ctx)))) [])),
         Reply saved_reply]"
    using assms(3) by (simp add: script_settled [OF assms(1) ns] appendToNotes_def Let_def)
  with out fetch_attachments_is_download [of "world ctx" m] show ?thesis by blast
qed

theorem append_failure_acknowledged_witness:
  "\<exists>pre path data saved.
     script example_config (example_context text_message (example_world\<lparr>append_throws := True\<rparr>))
       = pre @ [AppendFileSync path data False, Log NotesWriteError, Log (SavedTo saved),
                Reply saved_reply] \<and>
     snd (processMessage example_config
            (example_context text_message (example_world\<lparr>append_throws := True\<rparr>))) = Returned"
proof -
  let ?ctx = "example_context text_message (example_world\<lparr>append_throws := True\<rparr>)"
  have nm: "no_media text_message"
    by (simp add: no_media_def no_photo_def text_message_def empty_message_def)
  have m: "message ?ctx = Some text_message"
    by (simp add: example_context_def)
  have s: "snd (processMessage example_config ?ctx) \<noteq> Suspended"
    using outcome_Suspended [OF m, of example_config]
    by (simp add: fetch_attachments_no_media nm)
  have a: "append_throws (world ?ctx)"
    by (simp add: example_context_def)
  have r: "\<not> reply_throws (world ?ctx)"
    by (simp add: example_context_def example_world_def)
  show ?thesis
    using append_failure_acknowledged [OF m s a] r by auto
qed

subsection \<open>Failure of a download\<close>

text \<open>
  A rejected link and an error of the request are contained: the download
  resolves to nothing, no entry is pushed, processing goes on, and after an
  error of the request the file is unlinked.
\<close>

lemma fetch_handled_failure:
  assumes "\<not> suspended p" and "transfer_of w k = LinkRejected \<or> transfer_of w k = RequestError"
  shows "attachments (fetch w k i n l orig p) = attachments p"
    and "\<not> suspended (fetch w k i n l orig p)"
    and "transfer_of w k = RequestError \<Longrightarrow> Unlink n \<in> set (acts (fetch w k i n l orig p))"
  using assms by (auto simp: fetch_def)

text \<open>
  C8 at an input where the claim and the code part.  A document is received
  and the write stream fails during the transfer.  \<^verbatim>\<open>downloadFile\<close> has no
  listener for that event, so its promise is never settled: it does not resolve
  to nothing, the file is not unlinked, and \<^verbatim>\<open>processMessage\<close> makes no further
  call, neither the append nor the reply.
\<close>

theorem stream_error_not_contained:
  "downloadFile StreamError ''F1'' ''1700000000123_4fzyo8_plan_v2.docx'' =
     ([GetFileLink ''F1'', CreateWriteStream ''1700000000123_4fzyo8_plan_v2.docx'', HttpsGet ''F1''],
      Unsettled) \<and>
   processMessage example_config (example_context plan_message stream_error_world) =
     ([Log Processing, GetFileLink ''F1'',
       CreateWriteStream ''1700000000123_4fzyo8_plan_v2.docx'', HttpsGet ''F1''],
      Suspended)"
proof
  show "downloadFile StreamError ''F1'' ''1700000000123_4fzyo8_plan_v2.docx'' =
     ([GetFileLink ''F1'', CreateWriteStream ''1700000000123_4fzyo8_plan_v2.docx'', HttpsGet ''F1''],
      Unsettled)"
    by simp
next
  have gen: "fileName_for stream_error_world Document ''plan v2'' ''.docx''
      = ''1700000000123_4fzyo8_plan_v2.docx''"
    by (simp add: fileName_for_def generateFileName_def Let_def sanitize_plan
        stream_error_world_def example_world_def toString_example_clock substring_def)
  have tr: "transfer_of stream_error_world k = StreamError" for k
    by (simp add: stream_error_world_def)
  have "fetch_attachments stream_error_world plan_message =
      \<lparr>acts = [Log Processing, GetFileLink ''F1'',
                CreateWriteStream ''1700000000123_4fzyo8_plan_v2.docx'', HttpsGet ''F1''],
        attachments = [], suspended = True\<rparr>"
    by (simp add: fetch_attachments_def photo_branch_def document_branch_def video_branch_def
        audio_branch_def voice_branch_def video_note_branch_def plan_message_def
        empty_message_def Let_def or_else_def extname_plan basename_plan gen fetch_def tr
        content_logs_def)
  then show "processMessage example_config (example_context plan_message stream_error_world) =
     ([Log Processing, GetFileLink ''F1'',
       CreateWriteStream ''1700000000123_4fzyo8_plan_v2.docx'', HttpsGet ''F1''],
      Suspended)"
    by (simp add: processMessage_def example_context_def Let_def)
qed


subsection \<open>The dispatch queue\<close>



lemma on_message_rejected:
  "\<not> authorized cfg ctx \<Longrightarrow> \<exists>l. on_message cfg ctx s = s\<lparr>trace := trace s @ [Log l]\<rparr>"
  by (auto simp: on_message_def authorized_def Let_def)

lemma on_message_busy:
  "authorized cfg ctx \<Longrightarrow> isProcessing s \<Longrightarrow>
   on_message cfg ctx s = s\<lparr>messageQueue := messageQueue s @ [ctx]\<rparr>"
  by (cases "from_id ctx")
     (auto simp: on_message_def authorized_def Let_def processQueue_def)

lemma on_message_idle:
  "authorized cfg ctx \<Longrightarrow> \<not> isProcessing s \<Longrightarrow> messageQueue s = [] \<Longrightarrow>
   on_message cfg ctx s =
     s\<lparr>messageQueue := [], isProcessing := True, running := running s @ [(ctx, script cfg ctx)]\<rparr>"
  by (cases "from_id ctx")
     (auto simp: on_message_def authorized_def Let_def processQueue_def loop_turn_def script_def)

lemma settle_single:
  "running s = [(c, r)] \<Longrightarrow>
   settle cfg 0 s =
     (case snd (processMessage cfg c) of
        Returned \<Rightarrow> loop_turn cfg (s\<lparr>running := []\<rparr>)
      | Threw \<Rightarrow> s\<lparr>running := []\<rparr>
      | Suspended \<Rightarrow> s)"
  by (simp add: settle_def Let_def)

lemma resume_idle: "running s = [] \<Longrightarrow> resume cfg i s = s"
  by (simp add: resume_def)



lemma resume_last:
  "running s = [(c, [a])] \<Longrightarrow>
   resume cfg 0 s = settle cfg 0 (s\<lparr>trace := trace s @ [a], running := [(c, [])]\<rparr>)"
  by (simp add: resume_def Let_def)

lemma resume_more:
  "running s = [(c, a # b # r)] \<Longrightarrow>
   resume cfg 0 s = s\<lparr>trace := trace s @ [a], running := [(c, b # r)]\<rparr>"
  by (simp add: resume_def Let_def)

















lemma enqueued_Cons: "enqueued cfg (e # evs) = enqueued cfg [e] @ enqueued cfg evs"
  by (cases e) simp_all




lemma processMessage_text_example:
  "processMessage example_config (example_context text_message (example_world\<lparr>reply_throws := b\<rparr>)) =
     ([Log Processing, Log (TextPreview ''hello''),
       AppendFileSync ''/srv/bot/notes/3-nov.md''
         (nl @ ''---'' @ nl @ ''**09:05:30**'' @ nl @ nl @ ''hello'' @ nl @ nl @ ''---'' @ nl @ nl) True,
       Log (SavedTo ''3-nov.md''), Reply saved_reply],
      if b then Threw else Returned)"
proof -
  have nm: "no_media text_message"
    by (simp add: no_media_def no_photo_def text_message_def empty_message_def)
  have base: "basename ''/srv/bot/notes/3-nov.md'' [] = ''3-nov.md''"
    by (simp add: basename_def last_component_def is_slash_def)
  have day: "getDayNotesFile example_config example_date = ''/srv/bot/notes/3-nov.md''"
    by (simp add: getDayNotesFile_def example_config_def example_date_def month_name_def
        MONTH_NAMES_def path_join_def toString.simps digit_char_def)
  have stamp: "getTimestamp (\<lambda>t. example_date) n (Some 1700000000) = ''09:05:30''" for n
    by (simp add: getTimestamp_def example_date_def padStart_def toString.simps digit_char_def)
  show ?thesis
    by (simp add: processMessage_def example_context_def Let_def fetch_attachments_no_media nm
        example_world_def day base stamp appendToNotes_def)
       (simp add: text_message_def empty_message_def content_logs_def preview_def substring_def
        markdownContent_def body_text_def attachments_section_def formatForwardInfo_def stamp)
qed

lemma later_context_authorized:
  "authorized example_config later_context" "authorized example_config failing_reply_context"
  by (simp_all add: authorized_def later_context_def failing_reply_context_def
      example_context_def example_config_def)


lemma failing_reply_context_script:
  "script example_config failing_reply_context =
     [Log Processing, Log (TextPreview ''hello''),
       AppendFileSync ''/srv/bot/notes/3-nov.md''
         (nl @ ''---'' @ nl @ ''**09:05:30**'' @ nl @ nl @ ''hello'' @ nl @ nl @ ''---'' @ nl @ nl) True,
       Log (SavedTo ''3-nov.md''), Reply saved_reply]"
  "snd (processMessage example_config failing_reply_context) = Threw"
  using processMessage_text_example [of True]
  by (simp_all add: script_def failing_reply_context_def)

lemma run_Cons: "run cfg s (e # evs) = run cfg (step cfg s e) evs"
  by (simp add: run_def)

lemma run_Nil: "run cfg s [] = s"
  by (simp add: run_def)

lemma run_append: "run cfg s (xs @ ys) = run cfg (run cfg s xs) ys"
  by (simp add: run_def)



subsection \<open>A reply that throws\<close>

text \<open>
  Once a call of \<^verbatim>\<open>processMessage\<close> has thrown, the flag is set and nothing is
  running: from then on every authorized message is queued and stays queued,
  and no fetch, append or reply is made any more.
\<close>

lemma wedged_run:
  assumes "isProcessing s" and "running s = []"
  shows "isProcessing (run cfg s evs) \<and> running (run cfg s evs) = [] \<and>
    messageQueue (run cfg s evs) = messageQueue s @ enqueued cfg evs \<and>
    effects (trace (run cfg s evs)) = effects (trace s)"
  using assms
proof (induction evs arbitrary: s)
  case Nil
  then show ?case by (simp add: run_Nil)
next
  case (Cons e evs)
  have step: "isProcessing (step cfg s e) \<and> running (step cfg s e) = [] \<and>
      messageQueue (step cfg s e) = messageQueue s @ enqueued cfg [e] \<and>
      effects (trace (step cfg s e)) = effects (trace s)"
  proof (cases e)
    case (Resume i)
    with Cons.prems show ?thesis by (simp add: resume_idle)
  next
    case (Message ctx)
    show ?thesis
    proof (cases "authorized cfg ctx")
      case True
      with Message Cons.prems show ?thesis by (simp add: on_message_busy)
    next
      case False
      then obtain l where "on_message cfg ctx s = s\<lparr>trace := trace s @ [Log l]\<rparr>"
        using on_message_rejected by blast
      with False Message Cons.prems show ?thesis
        by (simp add: effects_append effects_Cons effects_Nil)
    qed
  qed
  then have "isProcessing (run cfg (step cfg s e) evs) \<and> running (run cfg (step cfg s e) evs) = [] \<and>
      messageQueue (run cfg (step cfg s e) evs) = messageQueue (step cfg s e) @ enqueued cfg evs \<and>
      effects (trace (run cfg (step cfg s e) evs)) = effects (trace (step cfg s e))"
    by (intro Cons.IH) simp_all
  with step show ?case
    by (simp add: run_Cons enqueued_Cons [of cfg e evs])
qed

lemma failing_reply_run:
  "run example_config initial
     [Message failing_reply_context, Message later_context,
      Resume 0, Resume 0, Resume 0, Resume 0, Resume 0] =
   \<lparr>messageQueue = [later_context], isProcessing = True, running = [],
     trace = script example_config failing_reply_context\<rparr>"
  by (simp add: run_Cons run_Nil on_message_idle on_message_busy later_context_authorized
      initial_def failing_reply_context_script resume_more resume_last settle_single)

text \<open>
  C2 at an input where the claim and the code part.  Two authorized text
  messages arrive and the reply to the first one throws.  The first message is
  appended; \<^verbatim>\<open>processQueue\<close> is left through the exception with the flag still
  set; the second message stays at the head of the queue whatever happens
  afterwards, and no call is ever made for it.
\<close>

theorem reply_failure_wedges_queue:
  "isProcessing (run example_config initial
      ([Message failing_reply_context, Message later_context,
        Resume 0, Resume 0, Resume 0, Resume 0, Resume 0] @ evs)) \<and>
   running (run example_config initial
      ([Message failing_reply_context, Message later_context,
        Resume 0, Resume 0, Resume 0, Resume 0, Resume 0] @ evs)) = [] \<and>
   messageQueue (run example_config initial
      ([Message failing_reply_context, Message later_context,
        Resume 0, Resume 0, Resume 0, Resume 0, Resume 0] @ evs))
     = later_context # enqueued example_config evs \<and>
   effects (trace (run example_config initial
      ([Message failing_reply_context, Message later_context,
        Resume 0, Resume 0, Resume 0, Resume 0, Resume 0] @ evs)))
     = effects (script example_config failing_reply_context)"
proof -
  have eq: "run example_config initial
      ([Message failing_reply_context, Message later_context,
        Resume 0, Resume 0, Resume 0, Resume 0, Resume 0] @ evs) =
    run example_config \<lparr>messageQueue = [later_context], isProcessing = True, running = [],
      trace = script example_config failing_reply_context\<rparr> evs"
    by (simp only: run_append failing_reply_run)
  show ?thesis
    unfolding eq
    using wedged_run [of "\<lparr>messageQueue = [later_context], isProcessing = True, running = [],
      trace = script example_config failing_reply_context\<rparr>" example_config evs]
    by simp
qed


end
